theory Spec2Isabelle
  imports Main
begin

section \<open>Go values used by the zfs package\<close>

text \<open>
  Go strings are byte sequences; they are modelled as \<open>string\<close> (a list of \<open>char\<close>,
  one per byte). Every separator and forbidden character of the package is ASCII, so
  working on bytes agrees with Go's rune-wise library functions.

  A Go function returning \<open>(v, err)\<close> is modelled as a pair whose second component is an
  \<open>error option\<close>; \<open>None\<close> stands for a \<open>nil\<close> error.
\<close>

datatype error =
    Errorf string                \<comment> \<open>\<open>fmt.Errorf\<close> / \<open>errors.New\<close> with the rendered message\<close>
  | FilteredError string         \<comment> \<open>\<open>replication.NewFilteredError(fs)\<close>\<close>
  | ZFSError string error        \<comment> \<open>\<open>ZFSError{Stderr, WaitErr}\<close>\<close>
  | ErrTooLong                   \<comment> \<open>\<open>bufio.ErrTooLong\<close>\<close>
  | ExternalError nat            \<comment> \<open>an error value produced outside this package\<close>

datatype panic = SliceBoundsOutOfRange

subsection \<open>The functions of package \<open>strings\<close> that the code calls\<close>

text \<open>\<open>strings.ContainsAny(s, chars)\<close>: some byte of \<open>s\<close> occurs in \<open>chars\<close>.\<close>

fun ContainsAny :: "string \<Rightarrow> string \<Rightarrow> bool" where
  "ContainsAny [] chars = False"
| "ContainsAny (c # cs) chars = (if c \<in> set chars then True else ContainsAny cs chars)"

text \<open>\<open>strings.Contains(s, sub)\<close> for a one-byte \<open>sub\<close>.\<close>

definition Contains :: "string \<Rightarrow> char \<Rightarrow> bool" where
  "Contains s c = (c \<in> set s)"

text \<open>\<open>strings.Count(s, sep)\<close> for a one-byte separator.\<close>

fun Count :: "string \<Rightarrow> char \<Rightarrow> nat" where
  "Count [] sep = 0"
| "Count (c # cs) sep = (if c = sep then Suc (Count cs sep) else Count cs sep)"

text \<open>
  The loop of \<open>strings.genSplit\<close> for a one-byte separator: \<open>k\<close> is the number of cuts
  still allowed, \<open>cur\<close> the bytes read since the last cut. When no cut is left the rest
  of the string is the last field, separators included.
\<close>

fun split_loop :: "char \<Rightarrow> nat \<Rightarrow> string \<Rightarrow> string \<Rightarrow> string list" where
  "split_loop sep 0 cur s = [cur @ s]"
| "split_loop sep (Suc k) cur [] = [cur]"
| "split_loop sep (Suc k) cur (c # cs) =
     (if c = sep then cur # split_loop sep k [] cs
      else split_loop sep (Suc k) (cur @ [c]) cs)"

definition genSplit :: "string \<Rightarrow> char \<Rightarrow> int \<Rightarrow> string list" where
  "genSplit s sep n =
     (if n = 0 then []
      else (let m = (if n < 0 then int (Count s sep) + 1 else n)
            in split_loop sep (nat (m - 1)) [] s))"

definition SplitN :: "string \<Rightarrow> char \<Rightarrow> int \<Rightarrow> string list" where
  "SplitN s sep n = genSplit s sep n"

definition Split :: "string \<Rightarrow> char \<Rightarrow> string list" where
  "Split s sep = genSplit s sep (- 1)"

text \<open>\<open>strings.Join(elems, sep)\<close>.\<close>

fun Join :: "string list \<Rightarrow> string \<Rightarrow> string" where
  "Join [] sep = []"
| "Join [x] sep = x"
| "Join (x # y # ys) sep = x @ sep @ Join (y # ys) sep"

section \<open>DatasetPath\<close>

record DatasetPath =
  comps :: "string list"

definition ToString :: "DatasetPath \<Rightarrow> string" where
  "ToString p = Join (comps p) ''/''"

definition Length :: "DatasetPath \<Rightarrow> int" where
  "Length p = int (length (comps p))"

text \<open>\<open>Equal\<close>: the lengths are compared first, then the components index by index.\<close>

fun comps_equal :: "string list \<Rightarrow> string list \<Rightarrow> bool" where
  "comps_equal [] [] = True"
| "comps_equal (x # xs) (y # ys) = (if x \<noteq> y then False else comps_equal xs ys)"
| "comps_equal _ _ = False"

definition Equal :: "DatasetPath \<Rightarrow> DatasetPath \<Rightarrow> bool" where
  "Equal p q = (if length (comps p) \<noteq> length (comps q) then False
                else comps_equal (comps p) (comps q))"

text \<open>
  A slice expression \<open>xs[n:]\<close>: Go panics unless \<open>0 \<le> n \<le> len(xs)\<close>.
\<close>

definition slice_from :: "'a list \<Rightarrow> int \<Rightarrow> panic + 'a list" where
  "slice_from xs n =
     (if n < 0 \<or> int (length xs) < n then Inl SliceBoundsOutOfRange
      else Inr (drop (nat n) xs))"

text \<open>
  \<open>TrimNPrefixComps\<close> mutates the receiver; the model returns the new path, or the panic
  of the slice expression. Go's \<open>int\<close> is modelled as \<open>int\<close>: the function only compares.
\<close>

definition TrimNPrefixComps :: "DatasetPath \<Rightarrow> int \<Rightarrow> panic + DatasetPath" where
  "TrimNPrefixComps p n0 =
     (let n = (if int (length (comps p)) < n0 then int (length (comps p)) else n0)
      in if n = 0 then Inr p
         else (case slice_from (comps p) n of
                 Inl e \<Rightarrow> Inl e
               | Inr cs \<Rightarrow> Inr (p\<lparr>comps := cs\<rparr>)))"

definition FORBIDDEN :: string where
  "FORBIDDEN = [CHR ''@'', CHR ''#'', CHR ''|'', CHR 0x09, CHR '' '', CHR ''<'', CHR ''>'', CHR ''*'']"

text \<open>
  \<open>NewDatasetPath\<close> has named results \<open>(p, err)\<close>; both are returned on every path.
\<close>

definition NewDatasetPath :: "string \<Rightarrow> DatasetPath \<times> error option" where
  "NewDatasetPath s =
     (if s = [] then (\<lparr>comps = []\<rparr>, None)
      else if ContainsAny s FORBIDDEN
        then (\<lparr>comps = []\<rparr>,
              Some (Errorf (''contains forbidden characters (any of '' @ [CHR 0x27] @ FORBIDDEN
                            @ [CHR 0x27] @ '')'')))
      else (let cs = Split s CHR ''/''
            in if last cs = []
                 then (\<lparr>comps = cs\<rparr>,
                       Some (Errorf (''must not end with a '' @ [CHR 0x27] @ ''/'' @ [CHR 0x27])))
               else (\<lparr>comps = cs\<rparr>, None)))"


section \<open>Running the zfs binary\<close>

text \<open>
  What the operating system answers when the code runs \<open>zfs\<close> with a given argument
  vector is a parameter of the model: whether setting up the command fails before it is
  started (\<open>cmd.StdoutPipe\<close>, \<open>util.NewIOCommand\<close>, \<open>rwccmd.CommandContext\<close>), whether
  \<open>cmd.Start\<close> fails, the bytes written to standard output and standard error, and the
  error of \<open>cmd.Wait\<close>.
\<close>

record process =
  create_err :: "error option"
  start_err :: "error option"
  stdout :: string
  stderr :: string
  wait_err :: "error option"

type_synonym os = "string list \<Rightarrow> process"

text \<open>The trace of what a call asked of the system, in order.\<close>

datatype event =
    EvCommand "string list"            \<comment> \<open>a command for \<open>zfs\<close> with these arguments is set up\<close>
  | EvStart "string list"              \<comment> \<open>\<open>cmd.Start()\<close>\<close>
  | EvWait "string list"               \<comment> \<open>\<open>cmd.Wait()\<close>\<close>
  | EvGetReceiveResumeToken DatasetPath    \<comment> \<open>\<open>zfs.ZFSGetReceiveResumeToken(dp)\<close>\<close>
  | EvListFilesystemVersions DatasetPath   \<comment> \<open>\<open>zfs.ZFSListFilesystemVersions(dp, filter)\<close>\<close>

subsection \<open>bufio.Scanner over the output\<close>

text \<open>
  Both listing functions read the output through a \<open>bufio.Scanner\<close> with the default
  split function \<open>ScanLines\<close> and \<open>s.Buffer(buf, 0)\<close> for a 1024-byte \<open>buf\<close>: the buffer
  never grows, so a line is delivered only if it fits the buffer together with its
  newline; once the buffer holds 1024 bytes without a newline, \<open>Scan\<close> returns false
  and \<open>s.Err()\<close> is \<open>ErrTooLong\<close>. \<open>ScanLines\<close> strips one trailing carriage return and
  delivers a last line that has no newline.

  \<open>scan_lines cap cur rest\<close> gives the tokens that the successive calls of \<open>s.Scan()\<close>
  deliver and the final value of \<open>s.Err()\<close>; \<open>cur\<close> is the part of the current line
  already in the buffer.
\<close>

definition dropCR :: "string \<Rightarrow> string" where
  "dropCR data = (if data \<noteq> [] \<and> last data = CHR 0x0D then butlast data else data)"

fun scan_lines :: "nat \<Rightarrow> string \<Rightarrow> string \<Rightarrow> string list \<times> error option" where
  "scan_lines cap cur [] = (if cur = [] then ([], None) else ([dropCR cur], None))"
| "scan_lines cap cur (c # cs) =
     (if c = CHR 0x0A
        then (case scan_lines cap [] cs of (ts, e) \<Rightarrow> (dropCR cur # ts, e))
      else if cap \<le> length cur + 1 then ([], Some ErrTooLong)
      else scan_lines cap (cur @ [c]) cs)"

definition Scanner :: "string \<Rightarrow> string list \<times> error option" where
  "Scanner out = scan_lines 1024 [] out"

subsection \<open>ZFSList\<close>

definition list_args :: "string list \<Rightarrow> string list \<Rightarrow> string list" where
  "list_args properties zfsArgs =
     [''list'', ''-H'', ''-p'', ''-o'', Join properties '',''] @ zfsArgs"

text \<open>
  The loop \<open>for s.Scan() { ... }\<close> of \<open>ZFSList\<close> over the delivered lines. On a line
  with the wrong number of fields the named result \<open>err\<close> is set and the function
  returns with \<open>res\<close> as it is.
\<close>

fun ZFSList_loop :: "nat \<Rightarrow> string list \<Rightarrow> string list list \<Rightarrow> string list list \<times> error option" where
  "ZFSList_loop n [] res = (res, None)"
| "ZFSList_loop n (text # rest) res =
     (let fields = SplitN text (CHR 0x09) (int n)
      in if length fields \<noteq> n then (res, Some (Errorf ''unexpected output''))
         else ZFSList_loop n rest (res @ [fields]))"

text \<open>
  \<open>ZFSList\<close>: the result \<open>res\<close> is \<open>None\<close> where the Go function returns a \<open>nil\<close> slice.
  After the loop only \<open>cmd.Wait()\<close> is consulted; \<open>s.Err()\<close> is not read.
\<close>

definition ZFSList :: "os \<Rightarrow> string list \<Rightarrow> string list \<Rightarrow> string list list option \<times> error option" where
  "ZFSList sys properties zfsArgs =
     (let cmd = sys (list_args properties zfsArgs)
      in case create_err cmd of
           Some e \<Rightarrow> (None, Some e)
         | None \<Rightarrow>
        (case start_err cmd of
           Some e \<Rightarrow> (None, Some e)
         | None \<Rightarrow>
        (case ZFSList_loop (length properties) (fst (Scanner (stdout cmd))) [] of
           (res, Some e) \<Rightarrow> (Some res, Some e)
         | (res, None) \<Rightarrow>
             (case wait_err cmd of
                Some w \<Rightarrow> (None, Some (ZFSError (stderr cmd) w))
              | None \<Rightarrow> (Some res, None)))))"

subsection \<open>ZFSListChan\<close>

record ZFSListResult =
  Fields :: "string list"
  Err :: "error option"

text \<open>
  \<open>ZFSListChan\<close> for a context that is never cancelled (\<open>context.Background()\<close>, which
  is what \<open>Puller.ListFilesystems\<close> passes) and a consumer that drains the channel: the
  value is the sequence of results sent on \<open>out\<close> before it is closed. On every path
  the last act of \<open>ZFSListChan\<close> is its deferred \<open>close(out)\<close>; the state of the channel
  is followed in \<open>ListFilesystems\<close> below, which is where it matters.
\<close>

fun ZFSListChan_loop :: "nat \<Rightarrow> string list \<Rightarrow> error option \<Rightarrow> ZFSListResult list" where
  "ZFSListChan_loop n [] serr =
     (case serr of Some e \<Rightarrow> [\<lparr>Fields = [], Err = Some e\<rparr>] | None \<Rightarrow> [])"
| "ZFSListChan_loop n (text # rest) serr =
     (let fields = SplitN text (CHR 0x09) (int n)
      in if length fields \<noteq> n then [\<lparr>Fields = [], Err = Some (Errorf ''unexpected output'')\<rparr>]
         else \<lparr>Fields = fields, Err = None\<rparr> # ZFSListChan_loop n rest serr)"

definition ZFSListChan :: "os \<Rightarrow> string list \<Rightarrow> string list \<Rightarrow> ZFSListResult list" where
  "ZFSListChan sys properties zfsArgs =
     (let cmd = sys (list_args properties zfsArgs)
      in case create_err cmd of
           Some e \<Rightarrow> [\<lparr>Fields = [], Err = Some e\<rparr>]
         | None \<Rightarrow>
        (case start_err cmd of
           Some e \<Rightarrow> [\<lparr>Fields = [], Err = Some e\<rparr>]
         | None \<Rightarrow>
        (case Scanner (stdout cmd) of
           (tokens, serr) \<Rightarrow> ZFSListChan_loop (length properties) tokens serr)))"

subsection \<open>ZFSRecvWriter\<close>

datatype writer = Stdin "string list"   \<comment> \<open>\<open>cmd.Stdin\<close> of the command with these arguments\<close>

definition ZFSRecvWriter ::
  "os \<Rightarrow> DatasetPath \<Rightarrow> string list \<Rightarrow> (writer option \<times> error option) \<times> event list" where
  "ZFSRecvWriter sys fs additionalArgs =
     (let args = [''recv''];
          args = (if 0 < length args then args @ additionalArgs else args);
          args = args @ [ToString fs];
          cmd = sys args
      in case create_err cmd of
           Some e \<Rightarrow> ((None, Some e), [EvCommand args])
         | None \<Rightarrow>
        (case start_err cmd of
           Some e \<Rightarrow> ((None, Some e), [EvCommand args, EvStart args])
         | None \<Rightarrow> ((Some (Stdin args), None), [EvCommand args, EvStart args])))"

subsection \<open>ZFSProperties and ZFSSet\<close>

text \<open>
  The field \<open>m\<close> of \<open>ZFSProperties\<close> is a Go map. The order in which \<open>range p.m\<close> visits
  the keys is chosen by the runtime; it is the parameter \<open>keys\<close> of \<open>appendArgs\<close>.
\<close>

record ZFSProperties =
  prop_map :: "string \<rightharpoonup> string"

fun appendArgs_loop :: "(string \<rightharpoonup> string) \<Rightarrow> string list \<Rightarrow> string list \<Rightarrow> string list \<times> error option" where
  "appendArgs_loop pm [] args = (args, None)"
| "appendArgs_loop pm (prop # rest) args =
     (case pm prop of
        None \<Rightarrow> appendArgs_loop pm rest args
      | Some val \<Rightarrow>
          if Contains prop CHR ''=''
            then (args, Some (Errorf
              ''prop contains rune '=' which is the delimiter between property name and value''))
          else appendArgs_loop pm rest (args @ [prop @ ''='' @ val]))"

definition appendArgs :: "ZFSProperties \<Rightarrow> string list \<Rightarrow> string list \<Rightarrow> string list \<times> error option" where
  "appendArgs p keys args = appendArgs_loop (prop_map p) keys args"

definition ZFSSet :: "os \<Rightarrow> string list \<Rightarrow> DatasetPath \<Rightarrow> ZFSProperties \<Rightarrow> error option \<times> event list" where
  "ZFSSet sys keys fs props =
     (case appendArgs props keys [''set''] of
        (args, Some e) \<Rightarrow> (Some e, [])
      | (args, None) \<Rightarrow>
          (let args = args @ [ToString fs];
               cmd = sys args
           in case start_err cmd of
                Some e \<Rightarrow> (Some e, [EvCommand args, EvStart args])
              | None \<Rightarrow>
                  (case wait_err cmd of
                     Some w \<Rightarrow> (Some (ZFSError (stderr cmd) w), [EvCommand args, EvStart args, EvWait args])
                   | None \<Rightarrow> (None, [EvCommand args, EvStart args, EvWait args]))))"

section \<open>The Puller endpoint\<close>

text \<open>
  \<open>DatasetMapFilter\<close>, \<open>zfs.ZFSGetReceiveResumeToken\<close> and
  \<open>zfs.ZFSListFilesystemVersions\<close> are defined outside the two files at hand; what they
  return is a parameter. \<open>'f\<close> is the type of version filters, \<open>'v\<close> the type of
  filesystem versions.
\<close>

type_synonym DatasetFilter = "DatasetPath \<Rightarrow> bool \<times> error option"

record DatasetMapFilter =
  InvertedFilter :: "DatasetFilter \<times> error option"

record 'f Puller =
  Mapping :: DatasetMapFilter
  FilesystemVersionFilter :: 'f

record ('f, 'v) zfs =
  run :: os
  ZFSGetReceiveResumeToken :: "DatasetPath \<Rightarrow> string \<times> error option"
  ZFSListFilesystemVersions :: "DatasetPath \<Rightarrow> 'f \<Rightarrow> 'v list \<times> error option"

record Filesystem =
  Path :: string
  FsResumeToken :: string    \<comment> \<open>field \<open>ResumeToken\<close> of \<open>replication.Filesystem\<close>\<close>

record ReceiveRequest =
  Filesystem :: string
  ResumeToken :: string

datatype chan_panic = IndexOutOfRange | CloseOfClosedChannel

text \<open>
  \<open>close(ch)\<close> panics when the channel is already closed; \<open>close_chan closed\<close> is that
  panic, if any.
\<close>

definition close_chan :: "bool \<Rightarrow> chan_panic option" where
  "close_chan closed = (if closed then Some CloseOfClosedChannel else None)"

text \<open>
  The loop \<open>for res := range ch\<close> of \<open>ListFilesystems\<close> over the results that arrive on
  the channel, and the way it is left: the range ends (which happens only once the channel
  has been closed and drained), the body returns \<open>nil, res.Err\<close>, or an index expression
  panics. In the body the local variable \<open>token\<close> is computed and normalised, and the
  record is then built from \<open>res.Fields[1]\<close>.
\<close>

datatype loop_exit =
    RangeEnded "Filesystem list"     \<comment> \<open>the channel is closed and drained; \<open>fss\<close> so far\<close>
  | ReturnedErr error                \<comment> \<open>\<open>return nil, res.Err\<close>\<close>
  | IndexPanicked                    \<comment> \<open>\<open>res.Fields[i]\<close> out of range\<close>

fun ListFilesystems_loop :: "ZFSListResult list \<Rightarrow> Filesystem list \<Rightarrow> loop_exit" where
  "ListFilesystems_loop [] fss = RangeEnded fss"
| "ListFilesystems_loop (res # rest) fss =
     (case Err res of
        Some e \<Rightarrow> ReturnedErr e
      | None \<Rightarrow>
          if length (Fields res) < 2 then IndexPanicked
          else (let token = Fields res ! 1;
                    token = (if token = ''-'' then [] else token)
                in ListFilesystems_loop rest
                     (fss @ [\<lparr>Path = Fields res ! 0, FsResumeToken = Fields res ! 1\<rparr>])))"

text \<open>
  \<open>ListFilesystems\<close> starts \<open>ZFSListChan\<close> in a goroutine of its own and registers
  \<open>defer close(ch)\<close>; \<open>ZFSListChan\<close> has registered \<open>defer close(out)\<close> on the same channel.
  The outcome has two parts: what happens in the calling goroutine (a panic, or the
  values returned) and the panic, if any, of the goroutine that runs \<open>ZFSListChan\<close>.

  \<^item> If \<open>InvertedFilter()\<close> fails, the function returns before the channel exists.
  \<^item> If the range ends, \<open>ZFSListChan\<close> has closed the channel; \<open>return fss, nil\<close> runs the
    deferred \<open>close(ch)\<close> on the closed channel, which panics.
  \<^item> If the body returns the error it received, both goroutines go on to close the
    channel, in an order the scheduler chooses (the parameter \<open>producer_closed_first\<close>):
    the second close panics, in the caller or in the goroutine of \<open>ZFSListChan\<close>.
  \<^item> The index expressions are in range for every row that \<open>ZFSListChan\<close> sends for two
    properties, so the third way of leaving the loop is not reached from here.
\<close>

record ListFilesystems_outcome =
  caller :: "chan_panic + (Filesystem list option \<times> error option)"
  producer :: "chan_panic option"

definition ListFilesystems :: "'f Puller \<Rightarrow> ('f, 'v) zfs \<Rightarrow> bool \<Rightarrow> ListFilesystems_outcome" where
  "ListFilesystems p z producer_closed_first =
     (case InvertedFilter (Mapping p) of
        (f, Some e) \<Rightarrow> \<lparr>caller = Inr (None, Some e), producer = None\<rparr>
      | (f, None) \<Rightarrow>
          (case ListFilesystems_loop
                  (ZFSListChan (run z) [''name'', ''receive_resume_token''] []) [] of
             RangeEnded fss \<Rightarrow>
               (case close_chan True of
                  Some pn \<Rightarrow> \<lparr>caller = Inl pn, producer = None\<rparr>
                | None \<Rightarrow> \<lparr>caller = Inr (Some fss, None), producer = None\<rparr>)
           | ReturnedErr e \<Rightarrow>
               (case close_chan producer_closed_first of
                  Some pn \<Rightarrow> \<lparr>caller = Inl pn, producer = None\<rparr>
                | None \<Rightarrow> \<lparr>caller = Inr (None, Some e), producer = close_chan True\<rparr>)
           | IndexPanicked \<Rightarrow> \<lparr>caller = Inl IndexOutOfRange, producer = None\<rparr>))"

definition ListFilesystemVersions ::
  "'f Puller \<Rightarrow> ('f, 'v) zfs \<Rightarrow> string \<Rightarrow> ('v list \<times> error option) \<times> event list" where
  "ListFilesystemVersions p z fs =
     (case NewDatasetPath fs of
        (dp, Some e) \<Rightarrow> (([], Some e), [])
      | (dp, None) \<Rightarrow>
     (case InvertedFilter (Mapping p) of
        (f, Some e) \<Rightarrow> (([], Some e), [])
      | (f, None) \<Rightarrow>
     (case f dp of
        (pass, Some e) \<Rightarrow> (([], Some e), [])
      | (pass, None) \<Rightarrow>
          if \<not> pass then (([], Some (FilteredError fs)), [])
          else (ZFSListFilesystemVersions z dp (FilesystemVersionFilter p),
                [EvListFilesystemVersions dp]))))"

text \<open>
  The resume-token check of \<open>Receive\<close> (the block \<open>if r.ResumeToken != ""\<close>): the error
  it returns with, if any, and the trace.
\<close>

definition check_resume_token ::
  "('f, 'v) zfs \<Rightarrow> DatasetPath \<Rightarrow> ReceiveRequest \<Rightarrow> error option \<times> event list" where
  "check_resume_token z dp r =
     (if ResumeToken r \<noteq> []
        then (case ZFSGetReceiveResumeToken z dp of
                (localToken, Some e) \<Rightarrow> (Some e, [EvGetReceiveResumeToken dp])
              | (localToken, None) \<Rightarrow>
                  if localToken \<noteq> ResumeToken r
                    then (Some (Errorf
                      ''receive-side resume token does not metch send-side resume token''),
                          [EvGetReceiveResumeToken dp])
                  else (None, [EvGetReceiveResumeToken dp]))
      else (None, []))"

definition Receive ::
  "'f Puller \<Rightarrow> ('f, 'v) zfs \<Rightarrow> ReceiveRequest \<Rightarrow> (writer option \<times> error option) \<times> event list" where
  "Receive p z r =
     (case NewDatasetPath (Filesystem r) of
        (dp, Some e) \<Rightarrow> ((None, Some e), [])
      | (dp, None) \<Rightarrow>
     (case InvertedFilter (Mapping p) of
        (f, Some e) \<Rightarrow> ((None, Some e), [])
      | (f, None) \<Rightarrow>
     (case f dp of
        (pass, Some e) \<Rightarrow> ((None, Some e), [])
      | (pass, None) \<Rightarrow>
          if \<not> pass then ((None, Some (FilteredError (Filesystem r))), [])
          else (case check_resume_token z dp r of
                  (Some e, tr) \<Rightarrow> ((None, Some e), tr)
                | (None, tr) \<Rightarrow>
                    (case ZFSRecvWriter (run z) dp [] of
                       ((wr, Some e), tr') \<Rightarrow> ((None, Some e), tr @ tr')
                     | ((wr, None), tr') \<Rightarrow> ((wr, None), tr @ tr'))))))"

section \<open>Concrete inputs\<close>

text \<open>
  A listing whose second line has one field where two are requested, and a listing whose
  second line is 1024 bytes long. Both processes start and exit with status 0.
\<close>

definition sys_partial :: os where
  "sys_partial = (\<lambda>args. \<lparr>create_err = None, start_err = None,
      stdout = ''tank'' @ [CHR 0x09] @ ''-'' @ [CHR 0x0A] @ ''broken'' @ [CHR 0x0A],
      stderr = [], wait_err = None\<rparr>)"

definition long_line :: string where
  "long_line = replicate 1024 (CHR ''x'')"

definition sys_long_line :: os where
  "sys_long_line = (\<lambda>args. \<lparr>create_err = None, start_err = None,
      stdout = ''tank'' @ [CHR 0x09] @ ''-'' @ [CHR 0x0A] @ long_line @ [CHR 0x0A],
      stderr = [], wait_err = None\<rparr>)"

text \<open>
  A system on which every command starts, writes nothing and exits with status 0; one
  whose listing is the single line \<open>tank/data<tab>-\<close>; a Puller whose inverted filter
  accepts every path and one whose inverted filter rejects every path; and the zfs
  layer over a system on which the local resume token of every filesystem is \<open>t\<close>.
\<close>

definition sys_ok :: os where
  "sys_ok = (\<lambda>args. \<lparr>create_err = None, start_err = None, stdout = [], stderr = [],
                      wait_err = None\<rparr>)"

definition sys_tank :: os where
  "sys_tank = (\<lambda>args. \<lparr>create_err = None, start_err = None,
      stdout = ''tank/data'' @ [CHR 0x09] @ ''-'' @ [CHR 0x0A], stderr = [], wait_err = None\<rparr>)"

definition puller_pass :: "unit Puller" where
  "puller_pass = \<lparr>Mapping = \<lparr>InvertedFilter = (\<lambda>dp. (True, None), None)\<rparr>,
                  FilesystemVersionFilter = ()\<rparr>"

definition puller_reject :: "unit Puller" where
  "puller_reject = \<lparr>Mapping = \<lparr>InvertedFilter = (\<lambda>dp. (False, None), None)\<rparr>,
                    FilesystemVersionFilter = ()\<rparr>"

definition zfs_local_token :: "os \<Rightarrow> string \<Rightarrow> (unit, unit) zfs" where
  "zfs_local_token sys t = \<lparr>run = sys, ZFSGetReceiveResumeToken = (\<lambda>dp. (t, None)),
                            ZFSListFilesystemVersions = (\<lambda>dp f. ([], None))\<rparr>"

section \<open>Facts about the string functions\<close>

lemma ContainsAny_iff: "ContainsAny s chars \<longleftrightarrow> (\<exists>c\<in>set s. c \<in> set chars)"
  by (induction s) auto

lemma split_loop_nonempty: "split_loop sep k cur s \<noteq> []"
  by (induction sep k cur s rule: split_loop.induct) auto

lemma split_loop_no_sep: "sep \<notin> set x \<Longrightarrow> split_loop sep k cur x = [cur @ x]"
  by (induction sep k cur x rule: split_loop.induct) auto

lemma split_loop_cut:
  "sep \<notin> set x \<Longrightarrow> split_loop sep (Suc k) cur (x @ sep # rest) = (cur @ x) # split_loop sep k [] rest"
  by (induction x arbitrary: cur) auto

lemma Count_append: "Count (x @ y) sep = Count x sep + Count y sep"
  by (induction x) auto

lemma Count_no_sep: "sep \<notin> set x \<Longrightarrow> Count x sep = 0"
  by (induction x) auto

lemma Count_Join:
  "\<forall>c\<in>set cs. sep \<notin> set c \<Longrightarrow> Count (Join cs [sep]) sep = length cs - 1"
  by (induction cs "[sep]" rule: Join.induct) (auto simp: Count_append Count_no_sep)

lemma split_loop_Join:
  "cs \<noteq> [] \<Longrightarrow> \<forall>c\<in>set cs. sep \<notin> set c \<Longrightarrow> length cs - 1 \<le> k
    \<Longrightarrow> split_loop sep k [] (Join cs [sep]) = cs"
proof (induction cs "[sep]" arbitrary: k rule: Join.induct)
  case 1
  then show ?case by simp
next
  case (2 x)
  then show ?case by (simp add: split_loop_no_sep)
next
  case (3 x y ys)
  then obtain k' where k: "k = Suc k'" by (cases k) auto
  have "split_loop sep k' [] (Join (y # ys) [sep]) = y # ys"
    using 3 k by auto
  then show ?case using 3 k by (simp add: split_loop_cut)
qed

lemma Split_Join:
  "cs \<noteq> [] \<Longrightarrow> \<forall>c\<in>set cs. sep \<notin> set c \<Longrightarrow> Split (Join cs [sep]) sep = cs"
  by (simp add: Split_def genSplit_def Count_Join split_loop_Join)

lemma Count_last: "s \<noteq> [] \<Longrightarrow> last s = sep \<Longrightarrow> 0 < Count s sep"
  by (induction s) (auto split: if_splits)

lemma split_loop_last_sep:
  "s \<noteq> [] \<Longrightarrow> last s = sep \<Longrightarrow> Count s sep \<le> k \<Longrightarrow> last (split_loop sep k cur s) = []"
proof (induction s arbitrary: k cur)
  case Nil
  then show ?case by simp
next
  case (Cons c cs)
  have "0 < Count (c # cs) sep" using Cons.prems Count_last by blast
  then obtain k' where k: "k = Suc k'" using Cons.prems by (cases k) auto
  show ?case
  proof (cases "cs = []")
    case True
    then show ?thesis using Cons.prems k by (cases k') auto
  next
    case False
    then show ?thesis using Cons k by (auto simp: split_loop_nonempty)
  qed
qed

lemma Split_last_sep: "s \<noteq> [] \<Longrightarrow> last s = sep \<Longrightarrow> last (Split s sep) = []"
  by (simp add: Split_def genSplit_def split_loop_last_sep)

lemma set_Join: "set (Join cs sep) \<subseteq> \<Union>(set ` set cs) \<union> set sep"
  by (induction cs sep rule: Join.induct) auto

lemma Join_eq_Nil: "Join cs sep = [] \<Longrightarrow> cs = [] \<or> hd cs = []"
  by (induction cs sep rule: Join.induct) auto

lemma comps_equal_iff: "comps_equal xs ys \<longleftrightarrow> xs = ys"
  by (induction xs ys rule: comps_equal.induct) auto

lemma Equal_iff: "Equal p q \<longleftrightarrow> comps p = comps q"
  by (auto simp: Equal_def comps_equal_iff)


lemma Split_nonempty: "Split s sep \<noteq> []"
  by (simp add: Split_def genSplit_def split_loop_nonempty)

lemma length_split_loop: "length (split_loop sep k cur s) = min k (Count s sep) + 1"
  by (induction sep k cur s rule: split_loop.induct) auto

lemma length_SplitN:
  "0 < n \<Longrightarrow> length (SplitN t sep (int n)) = min n (Count t sep + 1)"
  by (cases n) (auto simp: SplitN_def genSplit_def length_split_loop nat_diff_distrib)

lemma SplitN_bad_iff:
  "length (SplitN t sep (int n)) \<noteq> n \<longleftrightarrow> Count t sep + 1 < n"
proof (cases n)
  case 0
  then show ?thesis by (simp add: SplitN_def genSplit_def)
next
  case (Suc m)
  then show ?thesis using length_SplitN [of n t sep] by auto
qed

lemma SplitN_ok_iff:
  "length (SplitN t sep (int n)) = n \<longleftrightarrow> n \<le> Count t sep + 1"
  using SplitN_bad_iff [of t sep n] by linarith

lemma ZFSList_loop_eq:
  "ZFSList_loop n ts res =
     (if \<forall>t\<in>set ts. n \<le> Count t (CHR 0x09) + 1
        then (res @ map (\<lambda>t. SplitN t (CHR 0x09) (int n)) ts, None)
      else (res @ map (\<lambda>t. SplitN t (CHR 0x09) (int n))
                    (takeWhile (\<lambda>t. n \<le> Count t (CHR 0x09) + 1) ts),
            Some (Errorf ''unexpected output'')))"
proof (induction ts arbitrary: res)
  case Nil
  then show ?case by simp
next
  case (Cons t ts)
  show ?case
  proof (cases "n \<le> Count t (CHR 0x09) + 1")
    case True
    then have "length (SplitN t (CHR 0x09) (int n)) = n" by (simp add: SplitN_ok_iff)
    then show ?thesis using True Cons.IH by (simp add: Let_def)
  next
    case False
    then have "length (SplitN t (CHR 0x09) (int n)) \<noteq> n" by (simp add: SplitN_ok_iff)
    then show ?thesis using False by (simp add: Let_def)
  qed
qed

lemma scan_lines_too_long:
  "CHR 0x0A \<notin> set x \<Longrightarrow> x \<noteq> [] \<Longrightarrow> cap \<le> length cur + length x
    \<Longrightarrow> scan_lines cap cur (x @ rest) = ([], Some ErrTooLong)"
proof (induction x arbitrary: cur)
  case Nil
  then show ?case by simp
next
  case (Cons c cs)
  show ?case
  proof (cases "cap \<le> length cur + 1")
    case True
    then show ?thesis using Cons.prems by auto
  next
    case False
    then have "cs \<noteq> []" using Cons.prems by auto
    then show ?thesis using Cons False by auto
  qed
qed

lemma scan_lines_line:
  "CHR 0x0A \<notin> set x \<Longrightarrow> length cur + length x < cap
    \<Longrightarrow> scan_lines cap cur (x @ CHR 0x0A # rest) =
        (dropCR (cur @ x) # fst (scan_lines cap [] rest), snd (scan_lines cap [] rest))"
  by (induction x arbitrary: cur) (auto split: prod.splits)

lemma SplitN_tank: "SplitN (''tank'' @ [CHR 0x09] @ ''-'') (CHR 0x09) 2 = [''tank'', ''-'']"
  by code_simp

lemma SplitN_broken: "SplitN ''broken'' (CHR 0x09) 2 = [''broken'']"
  by code_simp

lemma Scanner_partial:
  "Scanner (stdout (sys_partial args)) = ([''tank'' @ [CHR 0x09] @ ''-'', ''broken''], None)"
  by (simp add: sys_partial_def Scanner_def dropCR_def)

lemma Scanner_long_line:
  "Scanner (''tank'' @ [CHR 0x09] @ ''-'' @ [CHR 0x0A] @ long_line @ [CHR 0x0A])
     = ([''tank'' @ [CHR 0x09] @ ''-''], Some ErrTooLong)"
proof -
  have nl: "CHR 0x0A \<notin> set long_line" by (simp add: long_line_def)
  have ne: "long_line \<noteq> []" by (simp add: long_line_def)
  have len: "(1024::nat) \<le> length ([]::string) + length long_line" by (simp add: long_line_def)
  have tl: "scan_lines 1024 [] (long_line @ [CHR 0x0A]) = ([], Some ErrTooLong)"
    using scan_lines_too_long [OF nl ne len] .
  have "scan_lines 1024 [] ((''tank'' @ [CHR 0x09] @ ''-'') @ CHR 0x0A # (long_line @ [CHR 0x0A]))
          = (dropCR ([] @ (''tank'' @ [CHR 0x09] @ ''-''))
               # fst (scan_lines 1024 [] (long_line @ [CHR 0x0A])),
             snd (scan_lines 1024 [] (long_line @ [CHR 0x0A])))"
    by (rule scan_lines_line) simp_all
  then show ?thesis by (simp add: Scanner_def tl dropCR_def)
qed

lemma NewDatasetPath_tank_data:
  "NewDatasetPath ''tank/data'' = (\<lparr>comps = [''tank'', ''data'']\<rparr>, None)"
  by code_simp

lemma appendArgs_loop_error:
  "\<exists>k\<in>set keys. k \<in> dom pm \<and> Contains k CHR ''=''
    \<Longrightarrow> snd (appendArgs_loop pm keys args) = Some (Errorf
         ''prop contains rune '=' which is the delimiter between property name and value'')"
  by (induction keys arbitrary: args) (auto split: option.splits)

lemma appendArgs_loop_ok:
  "\<forall>k\<in>set keys. k \<in> dom pm \<longrightarrow> \<not> Contains k CHR ''=''
    \<Longrightarrow> appendArgs_loop pm keys args =
          (args @ map (\<lambda>k. k @ ''='' @ the (pm k)) (filter (\<lambda>k. k \<in> dom pm) keys), None)"
  by (induction keys arbitrary: args) (auto split: option.splits)

section \<open>DatasetPath: parsing and printing\<close>

text \<open>
  C6 (as amended). For every DatasetPath whose components are each non-empty, free of
  the forbidden characters \<open>@ # | <tab> <space> < > *\<close> and free of \<open>/\<close>, parsing the
  string form succeeds and yields the original path: \<open>NewDatasetPath (ToString p)\<close> is
  \<open>(p, nil)\<close>, and \<open>Equal\<close> holds between the parsed path and \<open>p\<close>.
\<close>

theorem NewDatasetPath_roundtrip_slash_free:
  assumes "\<forall>c\<in>set (comps p). c \<noteq> [] \<and> \<not> ContainsAny c FORBIDDEN \<and> \<not> Contains c CHR ''/''"
  shows "NewDatasetPath (ToString p) = (p, None) \<and> Equal (fst (NewDatasetPath (ToString p))) p"
proof (cases "comps p = []")
  case True
  then have "p = \<lparr>comps = []\<rparr>" by (cases p) simp
  then show ?thesis by (simp add: NewDatasetPath_def ToString_def Equal_iff)
next
  case False
  let ?s = "Join (comps p) ''/''"
  have nosl: "\<forall>c\<in>set (comps p). CHR ''/'' \<notin> set c"
    using assms by (simp add: Contains_def)
  have ne: "?s \<noteq> []"
  proof
    assume "?s = []"
    then have "hd (comps p) = []" using False Join_eq_Nil by blast
    moreover have "hd (comps p) \<in> set (comps p)" using False by simp
    ultimately show False using assms by metis
  qed
  have nf: "\<not> ContainsAny ?s FORBIDDEN"
  proof
    assume "ContainsAny ?s FORBIDDEN"
    then obtain c where c: "c \<in> set ?s" "c \<in> set FORBIDDEN"
      by (auto simp: ContainsAny_iff)
    from c(1) set_Join[of "comps p" "''/''"]
    have "c = CHR ''/'' \<or> (\<exists>x\<in>set (comps p). c \<in> set x)" by auto
    then show False
    proof
      assume "c = CHR ''/''"
      with c(2) show False by (simp add: FORBIDDEN_def)
    next
      assume "\<exists>x\<in>set (comps p). c \<in> set x"
      then obtain x where "x \<in> set (comps p)" "c \<in> set x" by blast
      with c(2) assms show False by (auto simp: ContainsAny_iff)
    qed
  qed
  have sp: "Split ?s CHR ''/'' = comps p"
    using False nosl by (rule Split_Join)
  have lastne: "last (comps p) \<noteq> []"
    using False assms last_in_set by blast
  have "NewDatasetPath ?s = (\<lparr>comps = comps p\<rparr>, None)"
    using ne nf sp lastne by (simp add: NewDatasetPath_def)
  moreover have "\<lparr>comps = comps p\<rparr> = p" by (cases p) simp
  ultimately show ?thesis by (simp add: ToString_def Equal_iff)
qed

text \<open>The round trip at the path \<open>tank/data\<close>.\<close>

theorem NewDatasetPath_roundtrip_slash_free_witness:
  "NewDatasetPath (ToString \<lparr>comps = [''tank'', ''data'']\<rparr>) = (\<lparr>comps = [''tank'', ''data'']\<rparr>, None)
   \<and> Equal (fst (NewDatasetPath (ToString \<lparr>comps = [''tank'', ''data'']\<rparr>))) \<lparr>comps = [''tank'', ''data'']\<rparr>"
proof -
  have h: "\<forall>c\<in>set (comps \<lparr>comps = [''tank'', ''data'']\<rparr>).
             c \<noteq> [] \<and> \<not> ContainsAny c FORBIDDEN \<and> \<not> Contains c CHR ''/''"
    by (simp add: FORBIDDEN_def Contains_def)
  show ?thesis using NewDatasetPath_roundtrip_slash_free [OF h] .
qed

text \<open>
  C6 as stated does not hold: the one-component path \<open>[a/b]\<close> has a non-empty component
  without forbidden characters, its string form \<open>a/b\<close> parses successfully, and the result
  has the two components \<open>a\<close> and \<open>b\<close>.
\<close>

theorem NewDatasetPath_roundtrip_counterexample:
  "''a/b'' \<noteq> [] \<and> \<not> ContainsAny ''a/b'' FORBIDDEN
   \<and> NewDatasetPath (ToString \<lparr>comps = [''a/b'']\<rparr>) = (\<lparr>comps = [''a'', ''b'']\<rparr>, None)
   \<and> \<not> Equal (fst (NewDatasetPath (ToString \<lparr>comps = [''a/b'']\<rparr>))) \<lparr>comps = [''a/b'']\<rparr>"
  by code_simp

text \<open>
  C7 (as amended). For every input string \<open>s\<close> for which \<open>NewDatasetPath\<close> succeeds: the
  empty input yields the zero-component path, and for a non-empty input the components
  are the pieces of \<open>s\<close> between slashes, there is at least one, and the last one is not
  the empty string. Components before the last one may be empty.
\<close>

theorem NewDatasetPath_last_component_nonempty:
  assumes "NewDatasetPath s = (p, None)"
  shows "(s = [] \<longrightarrow> comps p = []) \<and>
         (s \<noteq> [] \<longrightarrow> comps p = Split s CHR ''/'' \<and> comps p \<noteq> [] \<and> last (comps p) \<noteq> [])"
  using assms
  by (auto simp: NewDatasetPath_def Let_def Split_nonempty split: if_splits)

text \<open>The input \<open>a//b\<close>: accepted, three components, the last one non-empty.\<close>

theorem NewDatasetPath_last_component_nonempty_witness:
  "NewDatasetPath ''a//b'' = (\<lparr>comps = [''a'', [], ''b'']\<rparr>, None)
   \<and> comps \<lparr>comps = [''a'', [], ''b'']\<rparr> = Split ''a//b'' CHR ''/''
   \<and> comps \<lparr>comps = [''a'', [], ''b'']\<rparr> \<noteq> []
   \<and> last (comps \<lparr>comps = [''a'', [], ''b'']\<rparr>) \<noteq> []"
proof -
  have h: "NewDatasetPath ''a//b'' = (\<lparr>comps = [''a'', [], ''b'']\<rparr>, None)"
    by code_simp
  have ne: "''a//b'' \<noteq> []" by simp
  from h ne NewDatasetPath_last_component_nonempty [OF h] show ?thesis by blast
qed

text \<open>
  C7 as stated does not hold: \<open>NewDatasetPath\<close> succeeds on \<open>a//b\<close> and the resulting
  path has an empty component.
\<close>

theorem NewDatasetPath_empty_component_counterexample:
  "NewDatasetPath ''a//b'' = (\<lparr>comps = [''a'', [], ''b'']\<rparr>, None)
   \<and> [] \<in> set (comps (fst (NewDatasetPath ''a//b'')))"
  by code_simp

text \<open>
  C8. \<open>NewDatasetPath\<close> applied to the empty string succeeds and yields the empty path
  with length 0; it fails with a validation error for every string that contains one of
  \<open>@ # | <tab> <space> < > *\<close>, and for every non-empty string that ends in \<open>/\<close>.
\<close>

theorem NewDatasetPath_empty_and_rejections:
  "NewDatasetPath [] = (\<lparr>comps = []\<rparr>, None) \<and> Length (fst (NewDatasetPath [])) = 0
   \<and> ((\<exists>c\<in>set s. c \<in> {CHR ''@'', CHR ''#'', CHR ''|'', CHR 0x09, CHR '' '', CHR ''<'', CHR ''>'', CHR ''*''})
        \<longrightarrow> (\<exists>msg. snd (NewDatasetPath s) = Some (Errorf msg)))
   \<and> (s \<noteq> [] \<and> last s = CHR ''/'' \<longrightarrow> (\<exists>msg. snd (NewDatasetPath s) = Some (Errorf msg)))"
proof -
  have a: "NewDatasetPath [] = (\<lparr>comps = []\<rparr>, None)"
    by (simp add: NewDatasetPath_def)
  have b: "Length (fst (NewDatasetPath [])) = 0"
    by (simp add: NewDatasetPath_def Length_def)
  have c: "\<exists>msg. snd (NewDatasetPath s) = Some (Errorf msg)"
    if "\<exists>c\<in>set s. c \<in> {CHR ''@'', CHR ''#'', CHR ''|'', CHR 0x09, CHR '' '', CHR ''<'', CHR ''>'', CHR ''*''}"
  proof -
    from that have "ContainsAny s FORBIDDEN"
      unfolding ContainsAny_iff FORBIDDEN_def by simp
    moreover from that have "s \<noteq> []" by auto
    ultimately show ?thesis by (simp add: NewDatasetPath_def)
  qed
  have d: "\<exists>msg. snd (NewDatasetPath s) = Some (Errorf msg)" if "s \<noteq> [] \<and> last s = CHR ''/''"
  proof -
    from that have "last (Split s CHR ''/'') = []" by (simp add: Split_last_sep)
    with that show ?thesis by (simp add: NewDatasetPath_def)
  qed
  from a b c d show ?thesis by blast
qed

text \<open>The rejections at \<open>tank@snap\<close> and \<open>tank/\<close>.\<close>

theorem NewDatasetPath_empty_and_rejections_witness:
  "CHR ''@'' \<in> set ''tank@snap'' \<and> (\<exists>msg. snd (NewDatasetPath ''tank@snap'') = Some (Errorf msg))
   \<and> last ''tank/'' = CHR ''/'' \<and> (\<exists>msg. snd (NewDatasetPath ''tank/'') = Some (Errorf msg))"
  using NewDatasetPath_empty_and_rejections [of "''tank@snap''"]
        NewDatasetPath_empty_and_rejections [of "''tank/''"]
  by simp

section \<open>DatasetPath: trimming leading components\<close>

text \<open>
  C10. For every path \<open>p\<close> and every \<open>n \<ge> 0\<close>, \<open>TrimNPrefixComps\<close> completes and leaves
  the last \<open>max(length(p) - n, 0)\<close> components (\<open>n\<close> is clamped to the length of \<open>p\<close>);
  for every path \<open>p\<close> and every \<open>n < 0\<close> the clamp does not apply and the slice
  expression panics.
\<close>

theorem TrimNPrefixComps_nonneg_total_negative_panics:
  "(0 \<le> n \<longrightarrow>
      TrimNPrefixComps p n = Inr (p\<lparr>comps := drop (nat n) (comps p)\<rparr>)
      \<and> Length (p\<lparr>comps := drop (nat n) (comps p)\<rparr>) = max (Length p - n) 0
      \<and> drop (nat n) (comps p) = drop (nat (min n (Length p))) (comps p))
   \<and> (n < 0 \<longrightarrow> TrimNPrefixComps p n = Inl SliceBoundsOutOfRange)"
  by (auto simp: TrimNPrefixComps_def slice_from_def Length_def Let_def min_def max_def)

text \<open>Trimming the path \<open>a/b/c\<close> by 2, by 7 and by -1.\<close>

theorem TrimNPrefixComps_nonneg_total_negative_panics_witness:
  "TrimNPrefixComps \<lparr>comps = [''a'', ''b'', ''c'']\<rparr> 2 = Inr \<lparr>comps = [''c'']\<rparr>
   \<and> TrimNPrefixComps \<lparr>comps = [''a'', ''b'', ''c'']\<rparr> 7 = Inr \<lparr>comps = []\<rparr>
   \<and> TrimNPrefixComps \<lparr>comps = [''a'', ''b'', ''c'']\<rparr> (- 1) = Inl SliceBoundsOutOfRange"
  using TrimNPrefixComps_nonneg_total_negative_panics [of 2 "\<lparr>comps = [''a'', ''b'', ''c'']\<rparr>"]
        TrimNPrefixComps_nonneg_total_negative_panics [of 7 "\<lparr>comps = [''a'', ''b'', ''c'']\<rparr>"]
        TrimNPrefixComps_nonneg_total_negative_panics [of "- 1" "\<lparr>comps = [''a'', ''b'', ''c'']\<rparr>"]
  by simp

section \<open>ZFSList\<close>

text \<open>
  C4 (as amended). For every requested property list and every started subprocess, if
  one of the lines that the scanner delivers has fewer tab-separated fields than there
  are requested properties, \<open>ZFSList\<close> returns the protocol-violation error
  \<open>unexpected output\<close>; the rows value returned with it holds the rows accumulated before
  the first such line. (A line with more tabs than needed is not such a line: the surplus
  stays in its last field.)
\<close>

theorem ZFSList_short_line_is_error:
  assumes "create_err (sys (list_args properties zfsArgs)) = None"
      and "start_err (sys (list_args properties zfsArgs)) = None"
      and "Scanner (stdout (sys (list_args properties zfsArgs))) = (tokens, serr)"
      and "\<exists>t\<in>set tokens. Count t (CHR 0x09) + 1 < length properties"
  shows "ZFSList sys properties zfsArgs =
           (Some (map (\<lambda>t. SplitN t (CHR 0x09) (int (length properties)))
                      (takeWhile (\<lambda>t. length properties \<le> Count t (CHR 0x09) + 1) tokens)),
            Some (Errorf ''unexpected output''))"
proof -
  have bad: "\<not> (\<forall>t\<in>set tokens. length properties \<le> Count t (CHR 0x09) + 1)"
    using assms(4) by (meson not_less)
  have "ZFSList_loop (length properties) tokens [] =
          (map (\<lambda>t. SplitN t (CHR 0x09) (int (length properties)))
               (takeWhile (\<lambda>t. length properties \<le> Count t (CHR 0x09) + 1) tokens),
           Some (Errorf ''unexpected output''))"
    unfolding ZFSList_loop_eq using bad by simp
  then show ?thesis using assms(1-3) by (simp add: ZFSList_def)
qed

text \<open>The listing \<open>tank<tab>-\<close>, \<open>broken\<close> for two requested properties.\<close>

theorem ZFSList_short_line_is_error_witness:
  "ZFSList sys_partial [''name'', ''receive_resume_token''] []
     = (Some (map (\<lambda>t. SplitN t (CHR 0x09) (int (length [''name'', ''receive_resume_token''])))
                  (takeWhile (\<lambda>t. length [''name'', ''receive_resume_token''] \<le> Count t (CHR 0x09) + 1)
                     [''tank'' @ [CHR 0x09] @ ''-'', ''broken''])),
        Some (Errorf ''unexpected output''))"
proof -
  have a: "create_err (sys_partial (list_args [''name'', ''receive_resume_token''] [])) = None"
    by (simp add: sys_partial_def)
  have b: "start_err (sys_partial (list_args [''name'', ''receive_resume_token''] [])) = None"
    by (simp add: sys_partial_def)
  have c: "Scanner (stdout (sys_partial (list_args [''name'', ''receive_resume_token''] [])))
            = ([''tank'' @ [CHR 0x09] @ ''-'', ''broken''], None)"
    by (rule Scanner_partial)
  have d: "\<exists>t\<in>set [''tank'' @ [CHR 0x09] @ ''-'', ''broken''].
             Count t (CHR 0x09) + 1 < length [''name'', ''receive_resume_token'']"
    by simp
  show ?thesis
    using ZFSList_short_line_is_error
            [of sys_partial "[''name'', ''receive_resume_token'']" "[]"
                "[''tank'' @ [CHR 0x09] @ ''-'', ''broken'']" None, OF a b c d] .
qed

text \<open>
  C4 as stated does not hold: on the listing \<open>tank<tab>-\<close>, \<open>broken\<close> the second line has
  one field where two are requested, and \<open>ZFSList\<close> returns the row accumulated before it
  together with the error.
\<close>

theorem ZFSList_partial_rows_counterexample:
  "length (SplitN ''broken'' (CHR 0x09) 2) \<noteq> length [''name'', ''receive_resume_token'']
   \<and> ZFSList sys_partial [''name'', ''receive_resume_token''] []
       = (Some [[''tank'', ''-'']], Some (Errorf ''unexpected output''))"
proof -
  have "create_err (sys_partial args) = None" "start_err (sys_partial args) = None" for args
    by (simp_all add: sys_partial_def)
  then show ?thesis
    using SplitN_tank SplitN_broken by (simp add: ZFSList_def Scanner_partial Let_def)
qed

text \<open>
  C5. \<open>ZFSList\<close> is claimed to return either all rows without error or the first error
  among start failure, scan error and wait failure. At the listing whose second line is
  1024 bytes long the scanner stops with \<open>ErrTooLong\<close> after the first line; \<open>ZFSList\<close>
  returns the first row and no error, while \<open>ZFSListChan\<close> on the same output sends the
  scan error.
\<close>

theorem ZFSList_drops_scan_error:
  "Scanner (stdout (sys_long_line (list_args [''name'', ''receive_resume_token''] [])))
     = ([''tank'' @ [CHR 0x09] @ ''-''], Some ErrTooLong)
   \<and> ZFSList sys_long_line [''name'', ''receive_resume_token''] [] = (Some [[''tank'', ''-'']], None)
   \<and> ZFSListChan sys_long_line [''name'', ''receive_resume_token''] []
       = [\<lparr>Fields = [''tank'', ''-''], Err = None\<rparr>, \<lparr>Fields = [], Err = Some ErrTooLong\<rparr>]"
proof -
  have sp: "SplitN (''tank'' @ [CHR 0x09] @ ''-'') (CHR 0x09) 2 = [''tank'', ''-'']"
    by (rule SplitN_tank)
  have sc: "Scanner (stdout (sys_long_line (list_args [''name'', ''receive_resume_token''] [])))
            = ([''tank'' @ [CHR 0x09] @ ''-''], Some ErrTooLong)"
    using Scanner_long_line by (simp add: sys_long_line_def)
  have cr: "create_err (sys_long_line (list_args [''name'', ''receive_resume_token''] [])) = None"
       "start_err (sys_long_line (list_args [''name'', ''receive_resume_token''] [])) = None"
       "wait_err (sys_long_line (list_args [''name'', ''receive_resume_token''] [])) = None"
    by (simp_all add: sys_long_line_def)
  have l: "ZFSList sys_long_line [''name'', ''receive_resume_token''] [] = (Some [[''tank'', ''-'']], None)"
    using sp by (simp add: ZFSList_def sc cr Let_def)
  have c: "ZFSListChan sys_long_line [''name'', ''receive_resume_token''] []
       = [\<lparr>Fields = [''tank'', ''-''], Err = None\<rparr>, \<lparr>Fields = [], Err = Some ErrTooLong\<rparr>]"
    using sp by (simp add: ZFSListChan_def sc cr Let_def)
  from sc l c show ?thesis by blast
qed

section \<open>ZFSProperties and ZFSSet\<close>

text \<open>
  C9. For every property set in which some key contains \<open>=\<close>, whatever the order in which
  the map is visited, argument rendering returns an error and \<open>ZFSSet\<close> returns it before
  any command is set up or started (the trace is empty); for a property set whose keys are
  all free of \<open>=\<close>, argument rendering succeeds and appends one \<open>name=value\<close> token per
  entry.
\<close>

theorem ZFSSet_rejects_equals_in_key:
  assumes "set keys = dom (prop_map props)" and "distinct keys"
  shows "((\<exists>k\<in>dom (prop_map props). Contains k CHR ''='') \<longrightarrow>
            snd (appendArgs props keys args) = Some (Errorf
              ''prop contains rune '=' which is the delimiter between property name and value'')
            \<and> ZFSSet sys keys fs props = (Some (Errorf
              ''prop contains rune '=' which is the delimiter between property name and value''), []))
       \<and> ((\<forall>k\<in>dom (prop_map props). \<not> Contains k CHR ''='') \<longrightarrow>
            appendArgs props keys args =
              (args @ map (\<lambda>k. k @ ''='' @ the (prop_map props k)) keys, None)
            \<and> length (map (\<lambda>k. k @ ''='' @ the (prop_map props k)) keys) = card (dom (prop_map props)))"
proof (intro conjI impI)
  assume bad: "\<exists>k\<in>dom (prop_map props). Contains k CHR ''=''"
  then have ex: "\<exists>k\<in>set keys. k \<in> dom (prop_map props) \<and> Contains k CHR ''=''"
    using assms(1) by auto
  show e: "snd (appendArgs props keys args) = Some (Errorf
              ''prop contains rune '=' which is the delimiter between property name and value'')"
    for args
    using appendArgs_loop_error [OF ex] by (simp add: appendArgs_def)
  show "ZFSSet sys keys fs props = (Some (Errorf
              ''prop contains rune '=' which is the delimiter between property name and value''), [])"
    using e [of "[''set'']"] by (cases "appendArgs props keys [''set'']") (simp add: ZFSSet_def)
next
  assume good: "\<forall>k\<in>dom (prop_map props). \<not> Contains k CHR ''=''"
  have flt: "filter (\<lambda>k. k \<in> dom (prop_map props)) keys = keys"
    using assms(1) by (simp add: filter_id_conv)
  show "appendArgs props keys args =
              (args @ map (\<lambda>k. k @ ''='' @ the (prop_map props k)) keys, None)"
    using appendArgs_loop_ok [of keys "prop_map props" args] good flt
    by (simp add: appendArgs_def)
  show "length (map (\<lambda>k. k @ ''='' @ the (prop_map props k)) keys) = card (dom (prop_map props))"
    using assms distinct_card [of keys] by simp
qed

text \<open>
  The property set with the single key \<open>a=b\<close>, and the property set
  \<open>compression \<mapsto> lz4\<close>, \<open>atime \<mapsto> off\<close>.
\<close>

theorem ZFSSet_rejects_equals_in_key_witness:
  "ZFSSet sys_ok [''a=b''] \<lparr>comps = [''tank'']\<rparr> \<lparr>prop_map = [''a=b'' \<mapsto> ''1'']\<rparr>
     = (Some (Errorf ''prop contains rune '=' which is the delimiter between property name and value''), [])
   \<and> appendArgs \<lparr>prop_map = [''compression'' \<mapsto> ''lz4'', ''atime'' \<mapsto> ''off'']\<rparr>
                 [''atime'', ''compression''] [''set'']
     = ([''set'', ''atime=off'', ''compression=lz4''], None)"
proof -
  have a1: "set [''a=b''] = dom (prop_map \<lparr>prop_map = [''a=b'' \<mapsto> ''1'']\<rparr>)" by simp
  have a2: "distinct [''a=b'']" by simp
  have a3: "\<exists>k\<in>dom (prop_map \<lparr>prop_map = [''a=b'' \<mapsto> ''1'']\<rparr>). Contains k CHR ''=''"
    by (simp add: Contains_def)
  have bad: "ZFSSet sys_ok [''a=b''] \<lparr>comps = [''tank'']\<rparr> \<lparr>prop_map = [''a=b'' \<mapsto> ''1'']\<rparr>
     = (Some (Errorf ''prop contains rune '=' which is the delimiter between property name and value''), [])"
    using ZFSSet_rejects_equals_in_key [OF a1 a2, of _ sys_ok "\<lparr>comps = [''tank'']\<rparr>"] a3 by blast
  let ?g = "\<lparr>prop_map = [''compression'' \<mapsto> ''lz4'', ''atime'' \<mapsto> ''off'']\<rparr>"
  have b1: "set [''atime'', ''compression''] = dom (prop_map ?g)" by auto
  have b2: "distinct [''atime'', ''compression'']" by simp
  have b3: "\<forall>k\<in>dom (prop_map ?g). \<not> Contains k CHR ''=''"
    by (simp add: Contains_def)
  have "appendArgs ?g [''atime'', ''compression''] [''set'']
     = ([''set''] @ map (\<lambda>k. k @ ''='' @ the (prop_map ?g k)) [''atime'', ''compression''], None)"
    using ZFSSet_rejects_equals_in_key [OF b1 b2, of "[''set'']"] b3 by blast
  then have good: "appendArgs ?g [''atime'', ''compression''] [''set'']
     = ([''set'', ''atime=off'', ''compression=lz4''], None)"
    by simp
  from bad good show ?thesis by blast
qed

section \<open>The Puller endpoint: filter and resume token\<close>

text \<open>
  C1. For every Receive request whose ResumeToken is non-empty: a command is set up or
  started only if the local resume token of the parsed path was read and is exactly the
  requested token; once the path is parsed and passes the filter, reading the local
  token is the first thing the call does; when the token read differs from the requested
  one (an empty local token included) the call returns the mismatch error and the trace
  holds the read of the token and nothing else; and whenever the local token is not the
  requested one the call returns an error and no writer, and sets up or starts no command.
\<close>

theorem Receive_resume_token_gate:
  assumes "ResumeToken r \<noteq> []"
  shows "(EvCommand args \<in> set (snd (Receive p z r)) \<or> EvStart args \<in> set (snd (Receive p z r))
            \<longrightarrow> (\<exists>dp. NewDatasetPath (Filesystem r) = (dp, None)
                    \<and> EvGetReceiveResumeToken dp \<in> set (snd (Receive p z r))
                    \<and> ZFSGetReceiveResumeToken z dp = (ResumeToken r, None)))
       \<and> (NewDatasetPath (Filesystem r) = (dp, None)
              \<and> InvertedFilter (Mapping p) = (f, None) \<and> f dp = (True, None)
            \<longrightarrow> (\<exists>tr. snd (Receive p z r) = EvGetReceiveResumeToken dp # tr))
       \<and> (NewDatasetPath (Filesystem r) = (dp, None)
              \<and> InvertedFilter (Mapping p) = (f, None) \<and> f dp = (True, None)
              \<and> ZFSGetReceiveResumeToken z dp = (t, None) \<and> t \<noteq> ResumeToken r
            \<longrightarrow> Receive p z r =
                  ((None, Some (Errorf ''receive-side resume token does not metch send-side resume token'')),
                   [EvGetReceiveResumeToken dp]))
       \<and> (fst (ZFSGetReceiveResumeToken z (fst (NewDatasetPath (Filesystem r)))) \<noteq> ResumeToken r
            \<longrightarrow> fst (fst (Receive p z r)) = None \<and> snd (fst (Receive p z r)) \<noteq> None
                \<and> EvCommand args \<notin> set (snd (Receive p z r))
                \<and> EvStart args \<notin> set (snd (Receive p z r)))"
proof -
  obtain dp' e1 where dp: "NewDatasetPath (Filesystem r) = (dp', e1)"
    by (cases "NewDatasetPath (Filesystem r)")
  obtain f' e2 where f: "InvertedFilter (Mapping p) = (f', e2)"
    by (cases "InvertedFilter (Mapping p)")
  obtain pass e3 where pass: "f' dp' = (pass, e3)" by (cases "f' dp'")
  obtain t' e4 where t: "ZFSGetReceiveResumeToken z dp' = (t', e4)"
    by (cases "ZFSGetReceiveResumeToken z dp'")
  have A: "\<exists>dp. NewDatasetPath (Filesystem r) = (dp, None)
                    \<and> EvGetReceiveResumeToken dp \<in> set (snd (Receive p z r))
                    \<and> ZFSGetReceiveResumeToken z dp = (ResumeToken r, None)"
    if ev: "EvCommand args \<in> set (snd (Receive p z r)) \<or> EvStart args \<in> set (snd (Receive p z r))"
  proof -
    from ev dp f pass t assms
    have "e1 = None \<and> e4 = None \<and> t' = ResumeToken r
          \<and> EvGetReceiveResumeToken dp' \<in> set (snd (Receive p z r))"
      by (auto simp: Receive_def check_resume_token_def ZFSRecvWriter_def Let_def
               split: option.splits if_splits prod.splits)
    with dp t show ?thesis by auto
  qed
  have B: "\<exists>tr. snd (Receive p z r) = EvGetReceiveResumeToken dp # tr"
    if "NewDatasetPath (Filesystem r) = (dp, None)
          \<and> InvertedFilter (Mapping p) = (f, None) \<and> f dp = (True, None)"
    using that assms
    by (auto simp: Receive_def check_resume_token_def split: option.splits prod.splits)
  have C: "Receive p z r =
             ((None, Some (Errorf ''receive-side resume token does not metch send-side resume token'')),
              [EvGetReceiveResumeToken dp])"
    if "NewDatasetPath (Filesystem r) = (dp, None)
          \<and> InvertedFilter (Mapping p) = (f, None) \<and> f dp = (True, None)
          \<and> ZFSGetReceiveResumeToken z dp = (t, None) \<and> t \<noteq> ResumeToken r"
    using that assms by (simp add: Receive_def check_resume_token_def)
  have D: "fst (fst (Receive p z r)) = None \<and> snd (fst (Receive p z r)) \<noteq> None
                \<and> EvCommand args \<notin> set (snd (Receive p z r))
                \<and> EvStart args \<notin> set (snd (Receive p z r))"
    if ne: "fst (ZFSGetReceiveResumeToken z (fst (NewDatasetPath (Filesystem r)))) \<noteq> ResumeToken r"
  proof -
    from ne dp t have "t' \<noteq> ResumeToken r" by simp
    with dp f pass t assms show ?thesis
      by (auto simp: Receive_def check_resume_token_def split: option.splits)
  qed
  from A B C D show ?thesis by blast
qed

text \<open>
  The request for \<open>tank/data\<close> with token \<open>abc\<close>: against the local token \<open>xyz\<close> it fails
  with the mismatch error; against the local token \<open>abc\<close> the receive command is set up.
\<close>

theorem Receive_resume_token_gate_witness:
  "Receive puller_pass (zfs_local_token sys_ok ''xyz'') \<lparr>Filesystem = ''tank/data'', ResumeToken = ''abc''\<rparr>
     = ((None, Some (Errorf ''receive-side resume token does not metch send-side resume token'')),
        [EvGetReceiveResumeToken \<lparr>comps = [''tank'', ''data'']\<rparr>])
   \<and> EvCommand [''recv'', ''tank/data'']
        \<in> set (snd (Receive puller_pass (zfs_local_token sys_ok ''abc'')
                       \<lparr>Filesystem = ''tank/data'', ResumeToken = ''abc''\<rparr>))
   \<and> ZFSGetReceiveResumeToken (zfs_local_token sys_ok ''abc'') \<lparr>comps = [''tank'', ''data'']\<rparr>
        = (''abc'', None)"
proof -
  let ?r = "\<lparr>Filesystem = ''tank/data'', ResumeToken = ''abc''\<rparr>"
  let ?dp = "\<lparr>comps = [''tank'', ''data'']\<rparr>"
  have h: "ResumeToken ?r \<noteq> []" by simp
  have pre: "NewDatasetPath (Filesystem ?r) = (?dp, None)
          \<and> InvertedFilter (Mapping puller_pass) = (\<lambda>dp. (True, None), None)
          \<and> (\<lambda>dp. (True, None)) ?dp = (True, None)
          \<and> ZFSGetReceiveResumeToken (zfs_local_token sys_ok ''xyz'') ?dp = (''xyz'', None)
          \<and> ''xyz'' \<noteq> ResumeToken ?r"
    by (simp add: NewDatasetPath_tank_data puller_pass_def zfs_local_token_def)
  have mismatch: "Receive puller_pass (zfs_local_token sys_ok ''xyz'') ?r
     = ((None, Some (Errorf ''receive-side resume token does not metch send-side resume token'')),
        [EvGetReceiveResumeToken ?dp])"
    using Receive_resume_token_gate
            [OF h, of _ puller_pass "zfs_local_token sys_ok ''xyz''" ?dp "\<lambda>dp. (True, None)" "''xyz''"]
          pre
    by blast
  have started: "EvCommand [''recv'', ''tank/data'']
        \<in> set (snd (Receive puller_pass (zfs_local_token sys_ok ''abc'') ?r))"
    by (simp add: Receive_def check_resume_token_def ZFSRecvWriter_def NewDatasetPath_tank_data
          puller_pass_def zfs_local_token_def sys_ok_def ToString_def Let_def)
  have "\<exists>dp. NewDatasetPath (Filesystem ?r) = (dp, None)
          \<and> EvGetReceiveResumeToken dp \<in> set (snd (Receive puller_pass (zfs_local_token sys_ok ''abc'') ?r))
          \<and> ZFSGetReceiveResumeToken (zfs_local_token sys_ok ''abc'') dp = (ResumeToken ?r, None)"
    using Receive_resume_token_gate
            [OF h, of "[''recv'', ''tank/data'']" puller_pass "zfs_local_token sys_ok ''abc''"]
          started
    by blast
  then have "ZFSGetReceiveResumeToken (zfs_local_token sys_ok ''abc'') ?dp = (''abc'', None)"
    by (auto simp: NewDatasetPath_tank_data)
  with mismatch started show ?thesis by blast
qed

text \<open>
  C2. For every path string that parses and for which the inverted filter returns
  \<open>(false, nil)\<close>, both \<open>ListFilesystemVersions\<close> and \<open>Receive\<close> return the filtered error
  made from the path string, and their trace is empty: no version listing, no read of the
  resume token, no receive command.
\<close>

theorem filtered_path_is_rejected:
  assumes "NewDatasetPath fs = (dp, None)"
      and "InvertedFilter (Mapping p) = (f, None)"
      and "f dp = (False, None)"
  shows "ListFilesystemVersions p z fs = (([], Some (FilteredError fs)), [])
       \<and> Receive p z \<lparr>Filesystem = fs, ResumeToken = tok\<rparr> = ((None, Some (FilteredError fs)), [])"
  using assms by (simp add: ListFilesystemVersions_def Receive_def)

text \<open>The path \<open>tank/data\<close> under the filter that rejects every path.\<close>

theorem filtered_path_is_rejected_witness:
  "ListFilesystemVersions puller_reject (zfs_local_token sys_ok []) ''tank/data''
     = (([], Some (FilteredError ''tank/data'')), [])
   \<and> Receive puller_reject (zfs_local_token sys_ok []) \<lparr>Filesystem = ''tank/data'', ResumeToken = ''abc''\<rparr>
     = ((None, Some (FilteredError ''tank/data'')), [])"
proof -
  have a: "NewDatasetPath ''tank/data'' = (\<lparr>comps = [''tank'', ''data'']\<rparr>, None)"
    by (rule NewDatasetPath_tank_data)
  have b: "InvertedFilter (Mapping puller_reject) = (\<lambda>dp. (False, None), None)"
    by (simp add: puller_reject_def)
  have c: "(\<lambda>dp. (False, None)) \<lparr>comps = [''tank'', ''data'']\<rparr> = (False, None)"
    by simp
  show ?thesis
    using filtered_path_is_rejected
            [of "''tank/data''" "\<lparr>comps = [''tank'', ''data'']\<rparr>" puller_reject
                "\<lambda>dp. (False, None)" "zfs_local_token sys_ok []" "''abc''", OF a b c] .
qed

lemma ZFSListChan_loop_rows:
  "res \<in> set (ZFSListChan_loop n tokens serr) \<Longrightarrow> Err res \<noteq> None \<or> length (Fields res) = n"
  by (induction tokens) (auto simp: Let_def split: option.splits if_splits)

lemma ZFSListChan_rows:
  "res \<in> set (ZFSListChan sys properties zfsArgs)
    \<Longrightarrow> Err res \<noteq> None \<or> length (Fields res) = length properties"
  by (auto simp: ZFSListChan_def Let_def split: option.splits prod.splits
           dest: ZFSListChan_loop_rows)

lemma ListFilesystems_loop_in_range:
  "\<forall>res\<in>set rs. Err res \<noteq> None \<or> length (Fields res) = 2
    \<Longrightarrow> ListFilesystems_loop rs fss \<noteq> IndexPanicked"
  by (induction rs arbitrary: fss) (auto simp: Let_def split: option.splits)

lemma ListFilesystems_no_index_panic:
  "ListFilesystems_loop (ZFSListChan sys [''name'', ''receive_resume_token''] []) fss
     \<noteq> IndexPanicked"
proof (rule ListFilesystems_loop_in_range, rule ballI)
  fix res
  assume "res \<in> set (ZFSListChan sys [''name'', ''receive_resume_token''] [])"
  from ZFSListChan_rows [OF this] show "Err res \<noteq> None \<or> length (Fields res) = 2"
    by (simp add: numeral_2_eq_2)
qed

lemma ListFilesystems_returns_no_list:
  "caller (ListFilesystems p z producer_closed_first) \<noteq> Inr (Some fss, None)"
  by (auto simp: ListFilesystems_def close_chan_def split: prod.splits option.splits loop_exit.splits)

text \<open>
  C3. \<open>ListFilesystems\<close> is claimed to turn the token \<open>-\<close> into the empty string in the
  record it returns. On the listing \<open>tank/data<tab>-\<close> the channel carries the row
  \<open>[tank/data, -]\<close>; the loop stores the resume token \<open>-\<close> for it (the normalised local
  variable is not the value stored); and when the range has ended the deferred
  \<open>close(ch)\<close> meets the channel that \<open>ZFSListChan\<close> has closed, so the call panics and
  returns no record, under either order of the scheduler.
\<close>

theorem ListFilesystems_keeps_dash_token:
  "ZFSListChan sys_tank [''name'', ''receive_resume_token''] []
     = [\<lparr>Fields = [''tank/data'', ''-''], Err = None\<rparr>]
   \<and> ListFilesystems_loop [\<lparr>Fields = [''tank/data'', ''-''], Err = None\<rparr>] []
     = RangeEnded [\<lparr>Path = ''tank/data'', FsResumeToken = ''-''\<rparr>]
   \<and> ListFilesystems puller_pass (zfs_local_token sys_tank []) True
     = \<lparr>caller = Inl CloseOfClosedChannel, producer = None\<rparr>
   \<and> ListFilesystems puller_pass (zfs_local_token sys_tank []) False
     = \<lparr>caller = Inl CloseOfClosedChannel, producer = None\<rparr>"
proof -
  have sp: "SplitN (''tank/data'' @ [CHR 0x09] @ ''-'') (CHR 0x09) 2 = [''tank/data'', ''-'']"
    by code_simp
  have sc: "Scanner (stdout (sys_tank args)) = ([''tank/data'' @ [CHR 0x09] @ ''-''], None)" for args
    by (simp add: sys_tank_def Scanner_def dropCR_def)
  have cr: "create_err (sys_tank args) = None" "start_err (sys_tank args) = None" for args
    by (simp_all add: sys_tank_def)
  have ch: "ZFSListChan sys_tank [''name'', ''receive_resume_token''] []
     = [\<lparr>Fields = [''tank/data'', ''-''], Err = None\<rparr>]"
    using sp by (simp add: ZFSListChan_def sc cr Let_def)
  have lp: "ListFilesystems_loop [\<lparr>Fields = [''tank/data'', ''-''], Err = None\<rparr>] []
     = RangeEnded [\<lparr>Path = ''tank/data'', FsResumeToken = ''-''\<rparr>]"
    by simp
  have pn: "ListFilesystems puller_pass (zfs_local_token sys_tank []) sched
     = \<lparr>caller = Inl CloseOfClosedChannel, producer = None\<rparr>" for sched
    by (simp add: ListFilesystems_def puller_pass_def zfs_local_token_def ch close_chan_def)
  from ch lp pn [of True] pn [of False] show ?thesis by blast
qed

end
